theory Spec2Isabelle
  imports Complex_Main "HOL-Library.Word"
begin

section \<open>Screen Coach: frame preprocessing and change detection\<close>

text \<open>
  A shallow embedding of \<^verbatim>\<open>src/screen_coach/utils.py\<close> and of the per-tick function
  \<^verbatim>\<open>process_frame\<close> of \<^verbatim>\<open>src/screen_coach/main.py\<close>. Python exceptions are values of
  the type \<open>error\<close>; a function that may raise returns \<open>error + 'a\<close>.
\<close>

datatype error =
    ValueError string
  | KeyError string
  | ZeroDivisionError
  | DecompressionBombError
  | OverflowError
  | External string

subsection \<open>Bitmaps\<close>

text \<open>
  An RGB image of the imaging library: its size and its pixels, row by row, three 8-bit
  bands per pixel. An image may have width or height 0.
\<close>

type_synonym pixel = "8 word \<times> 8 word \<times> 8 word"

record bitmap =
  width :: nat
  height :: nat
  rows :: "pixel list list"

definition wf_bitmap :: "bitmap \<Rightarrow> bool" where
  "wf_bitmap im \<longleftrightarrow>
     length (rows im) = height im \<and> list_all (\<lambda>row. length row = width im) (rows im)"

text \<open>The pixel at column \<open>x\<close> of row \<open>y\<close>; only read inside the image.\<close>

definition getpixel :: "bitmap \<Rightarrow> nat \<Rightarrow> nat \<Rightarrow> pixel" where
  "getpixel im x y = rows im ! y ! x"

text \<open>An image of the given size whose pixel at \<open>(x, y)\<close> is \<open>f x y\<close>.\<close>

definition mk_image :: "nat \<Rightarrow> nat \<Rightarrow> (nat \<Rightarrow> nat \<Rightarrow> pixel) \<Rightarrow> bitmap" where
  "mk_image w h f =
     \<lparr>width = w, height = h, rows = map (\<lambda>y. map (\<lambda>x. f x y) [0..<w]) [0..<h]\<rparr>"

text \<open>The three bands of a pixel, in the order R, G, B.\<close>

definition bands :: "(pixel \<Rightarrow> 8 word) list" where
  "bands = [\<lambda>p. fst p, \<lambda>p. fst (snd p), \<lambda>p. snd (snd p)]"

subsection \<open>Change detector (\<^verbatim>\<open>has_significant_change\<close>)\<close>

definition absdiff :: "8 word \<Rightarrow> 8 word \<Rightarrow> 8 word" where
  "absdiff a b = (if b \<le> a then a - b else b - a)"

text \<open>
  \<^verbatim>\<open>ImageChops.difference(a, b)\<close>: the absolute difference, band by band; the result has
  the size common to both images.
\<close>

definition difference :: "bitmap \<Rightarrow> bitmap \<Rightarrow> bitmap" where
  "difference a b =
     mk_image (min (width a) (width b)) (min (height a) (height b))
       (\<lambda>x y. case (getpixel a x y, getpixel b x y) of
          ((r1, g1, b1), (r2, g2, b2)) \<Rightarrow> (absdiff r1 r2, absdiff g1 g2, absdiff b1 b2))"

text \<open>
  \<^verbatim>\<open>Image.histogram()\<close> of an RGB image: for each band, the number of pixels having each
  of the values 0..255; the three band histograms concatenated, 768 counts.
\<close>

definition band_histogram :: "(pixel \<Rightarrow> 8 word) \<Rightarrow> bitmap \<Rightarrow> nat list" where
  "band_histogram band im =
     map (\<lambda>v. length (filter (\<lambda>p. unat (band p) = v) (concat (rows im)))) [0..<256]"

definition histogram :: "bitmap \<Rightarrow> nat list" where
  "histogram im = concat (map (\<lambda>band. band_histogram band im) bands)"

text \<open>
  Lines 105 to 109 of \<^verbatim>\<open>has_significant_change\<close>: the sum of the squares weighted by the
  histogram, and the root of its mean. The sum is an exact integer; the division by
  \<^verbatim>\<open>float(total_pixels)\<close> raises when the image has no pixel. Floating-point numbers are
  idealised as reals.
\<close>

definition sum_squares :: "nat list \<Rightarrow> nat" where
  "sum_squares hist =
     sum_list (map (\<lambda>(idx, val). val * (idx mod 256) ^ 2) (enumerate 0 hist))"

definition rms_difference :: "bitmap \<Rightarrow> bitmap \<Rightarrow> error + real" where
  "rms_difference current previous =
     (let diff = difference current previous;
          hist = histogram diff;
          total_pixels = width current * height current * 3
      in if total_pixels = 0 then Inl ZeroDivisionError
         else Inr (sqrt (real (sum_squares hist) / real total_pixels)))"

definition has_significant_change :: "bitmap \<Rightarrow> bitmap option \<Rightarrow> real \<Rightarrow> error + bool" where
  "has_significant_change current previous threshold =
     (case previous of
        None \<Rightarrow> Inr True
      | Some prev \<Rightarrow>
          (case rms_difference current prev of
             Inl e \<Rightarrow> Inl e
           | Inr rms \<Rightarrow> Inr (rms \<ge> threshold)))"

text \<open>
  The direct computation the specification describes: the root of the mean, over every
  pixel and every band, of the squared absolute difference.
\<close>

definition direct_sum_squares :: "bitmap \<Rightarrow> bitmap \<Rightarrow> nat" where
  "direct_sum_squares a b =
     (\<Sum>y\<leftarrow>[0..<height a]. \<Sum>x\<leftarrow>[0..<width a]. \<Sum>band\<leftarrow>bands.
        (unat (absdiff (band (getpixel a x y)) (band (getpixel b x y)))) ^ 2)"

definition rms_direct :: "bitmap \<Rightarrow> bitmap \<Rightarrow> error + real" where
  "rms_direct a b =
     (let samples = width a * height a * 3
      in if samples = 0 then Inl ZeroDivisionError
         else Inr (sqrt (real (direct_sum_squares a b) / real samples)))"

subsection \<open>Sample bitmaps\<close>

definition empty_bitmap :: bitmap where
  "empty_bitmap = \<lparr>width = 0, height = 0, rows = []\<rparr>"

definition white2 :: bitmap where
  "white2 = \<lparr>width = 2, height = 1, rows = [[(255, 255, 255), (255, 255, 255)]]\<rparr>"

definition grey2 :: bitmap where
  "grey2 = \<lparr>width = 2, height = 1, rows = [[(10, 20, 30), (0, 255, 7)]]\<rparr>"

subsection \<open>Region model (\<^verbatim>\<open>Region\<close>, \<^verbatim>\<open>parse_region_config\<close>)\<close>

record region =
  left :: int
  top :: int
  right :: int
  bottom :: int

text \<open>
  Python's string functions on ASCII text: the whitespace that \<^verbatim>\<open>str.strip()\<close> removes and
  \<^verbatim>\<open>str.split(sep)\<close> for a one-character separator (always at least one piece).
  Characters outside ASCII are not modelled.
\<close>

definition is_space :: "char \<Rightarrow> bool" where
  "is_space c \<longleftrightarrow> (of_char c :: nat) \<in> {9, 10, 11, 12, 13, 28, 29, 30, 31, 32}"

definition strip :: "string \<Rightarrow> string" where
  "strip s = rev (dropWhile is_space (rev (dropWhile is_space s)))"

fun split_on :: "char \<Rightarrow> string \<Rightarrow> string list" where
  "split_on sep [] = [[]]"
| "split_on sep (c # cs) =
     (if c = sep then [] # split_on sep cs
      else (case split_on sep cs of [] \<Rightarrow> [[c]] | w # ws \<Rightarrow> (c # w) # ws))"

text \<open>
  \<^verbatim>\<open>repr(s)\<close> of a string: double quotes when the string has a single quote and no
  double quote, single quotes otherwise; the quote in use and the backslash are escaped,
  tab, newline and carriage return are written with their letter, every other control
  character with two hexadecimal digits.
\<close>

definition hex_digit :: "int \<Rightarrow> char" where
  "hex_digit k = ''0123456789abcdef'' ! nat k"

definition escape_char :: "char \<Rightarrow> char \<Rightarrow> string" where
  "escape_char quote c =
     (if c = quote \<or> c = CHR 0x5C then [CHR 0x5C, c]
      else if c = CHR 0x09 then [CHR 0x5C, CHR ''t'']
      else if c = CHR 0x0A then [CHR 0x5C, CHR ''n'']
      else if c = CHR 0x0D then [CHR 0x5C, CHR ''r'']
      else if (of_char c :: int) < 32 \<or> (of_char c :: int) = 127
      then [CHR 0x5C, CHR ''x'', hex_digit (of_char c div 16), hex_digit (of_char c mod 16)]
      else [c])"

definition py_repr :: "string \<Rightarrow> string" where
  "py_repr s =
     (let quote = (if CHR 0x27 \<in> set s \<and> CHR 0x22 \<notin> set s then CHR 0x22 else CHR 0x27)
      in [quote] @ concat (map (escape_char quote) s) @ [quote])"

text \<open>A number that is not negative, in decimal, as \<^verbatim>\<open>str(n)\<close> writes it.\<close>

function show_int :: "int \<Rightarrow> string" where
  "show_int n = (if n < 10 then [hex_digit n] else show_int (n div 10) @ [hex_digit (n mod 10)])"
  by pat_completeness auto
termination
  by (relation "measure nat") auto

declare show_int.simps [simp del]

text \<open>The first \<open>k\<close> characters of a string.\<close>

fun first_chars :: "int \<Rightarrow> string \<Rightarrow> string" where
  "first_chars k [] = []"
| "first_chars k (c # cs) = (if k \<le> 0 then [] else c # first_chars (k - 1) cs)"

text \<open>
  \<^verbatim>\<open>int(s)\<close> in base 10 on ASCII text. The whitespace \<^verbatim>\<open>int\<close> accepts around the number is
  tab, newline, vertical tab, form feed, carriage return and space only: the separators
  0x1C to 0x1F, which \<^verbatim>\<open>str.strip()\<close> removes, are not part of it. After the leading
  whitespace comes an optional sign, then digits in which single underscores may stand
  between two digits, then whitespace to the end. Anything else is an invalid literal,
  reported with the \<^verbatim>\<open>repr\<close> of the string cut to 200 characters. A well-formed number
  of more than 4300 digits (the interpreter's default limit) is refused as well.
\<close>

definition is_int_space :: "char \<Rightarrow> bool" where
  "is_int_space c \<longleftrightarrow> c \<in> set [CHR 0x09, CHR 0x0A, CHR 0x0B, CHR 0x0C, CHR 0x0D, CHR 0x20]"

definition is_digit :: "char \<Rightarrow> bool" where
  "is_digit c \<longleftrightarrow> c \<in> set ''0123456789''"

definition digit_value :: "char \<Rightarrow> int" where
  "digit_value c =
     (case map_of (zip ''0123456789'' [0, 1, 2, 3, 4, 5, 6, 7, 8, 9]) c of
        Some v \<Rightarrow> v
      | None \<Rightarrow> 0)"

definition invalid_literal :: "string \<Rightarrow> error" where
  "invalid_literal part =
     ValueError (''invalid literal for int() with base 10: '' @ first_chars 200 (py_repr part))"

definition int_max_str_digits :: int where
  "int_max_str_digits = 4300"

definition too_many_digits :: "int \<Rightarrow> error" where
  "too_many_digits n =
     ValueError (''Exceeds the limit (4300 digits) for integer string conversion: value has ''
       @ show_int n @ '' digits; use sys.set_int_max_str_digits() to increase the limit'')"

fun well_separated :: "string \<Rightarrow> bool" where
  "well_separated [] = False"
| "well_separated [c] = is_digit c"
| "well_separated (c # d # cs) =
     (is_digit c \<and> (if d = CHR ''_'' then well_separated cs else well_separated (d # cs)))"

definition split_sign :: "string \<Rightarrow> bool \<times> string" where
  "split_sign body =
     (case body of
        [] \<Rightarrow> (False, [])
      | c # cs \<Rightarrow> if c = CHR ''-'' then (True, cs)
                 else if c = CHR ''+'' then (False, cs)
                 else (False, body))"

definition digits_value :: "string \<Rightarrow> int" where
  "digits_value ds = foldl (\<lambda>acc c. acc * 10 + digit_value c) 0 ds"

definition py_int :: "string \<Rightarrow> error + int" where
  "py_int s =
     (case split_sign (dropWhile is_int_space s) of (negative, num) \<Rightarrow>
        (let run = takeWhile (\<lambda>c. is_digit c \<or> c = CHR ''_'') num;
             rest = dropWhile (\<lambda>c. is_digit c \<or> c = CHR ''_'') num;
             digits = filter is_digit run
         in if \<not> well_separated run \<or> dropWhile is_int_space rest \<noteq> []
            then Inl (invalid_literal s)
            else if int_max_str_digits < int (length digits)
            then Inl (too_many_digits (int (length digits)))
            else Inr (if negative then - digits_value digits else digits_value digits)))"

text \<open>\<^verbatim>\<open>Region.from_tuple\<close>, applied to integers already converted.\<close>

definition from_tuple :: "int list \<Rightarrow> error + region" where
  "from_tuple coords =
     (if length coords \<noteq> 4
      then Inl (ValueError ''Region requires four integers: left, top, right, bottom'')
      else let l = coords ! 0; t = coords ! 1; r = coords ! 2; b = coords ! 3
           in if r \<le> l \<or> b \<le> t then Inl (ValueError ''Invalid region dimensions'')
              else Inr \<lparr>left = l, top = t, right = r, bottom = b\<rparr>)"

text \<open>
  The comprehension \<^verbatim>\<open>[int(part) for part in chunk.split(",") if part.strip()]\<close>: blank
  parts are skipped, the first part that \<^verbatim>\<open>int\<close> refuses raises.
\<close>

fun int_parts :: "string list \<Rightarrow> error + int list" where
  "int_parts [] = Inr []"
| "int_parts (part # parts) =
     (if strip part = [] then int_parts parts
      else (case py_int part of
              Inl e \<Rightarrow> Inl e
            | Inr n \<Rightarrow> (case int_parts parts of Inl e \<Rightarrow> Inl e | Inr ns \<Rightarrow> Inr (n # ns))))"

text \<open>The loop of \<^verbatim>\<open>parse_region_config\<close> over the chunks, with the list built so far.\<close>

fun parse_chunks :: "string list \<Rightarrow> region list \<Rightarrow> error + region list" where
  "parse_chunks [] regions = Inr regions"
| "parse_chunks (c # cs) regions =
     (let chunk = strip c
      in if chunk = [] then parse_chunks cs regions
         else (case int_parts (split_on CHR '','' chunk) of
                 Inl e \<Rightarrow> Inl e
               | Inr coords \<Rightarrow>
                   (case from_tuple coords of
                      Inl e \<Rightarrow> Inl e
                    | Inr r \<Rightarrow> parse_chunks cs (regions @ [r]))))"

definition parse_region_config :: "string option \<Rightarrow> error + region list" where
  "parse_region_config config =
     (case config of
        None \<Rightarrow> Inr []
      | Some s \<Rightarrow> if s = [] then Inr [] else parse_chunks (split_on CHR '';'' s) [])"











subsection \<open>Redactor (\<^verbatim>\<open>redact_regions\<close>)\<close>

text \<open>
  The operations of the imaging library that \<^verbatim>\<open>redact_regions\<close> calls, on a box
  \<open>(left, upper, right, lower)\<close>. Memory is taken to be sufficient for every image
  the library agrees to build.

  \<^verbatim>\<open>Image.crop(box)\<close> returns a new image of the size of the box; positions of the box that
  lie outside the source are black. It refuses, in this order, a box whose right edge
  comes before the left one or whose lower edge comes before the upper one, a box of
  more than twice \<^verbatim>\<open>MAX_IMAGE_PIXELS\<close> pixels, and a coordinate that does not fit the
  signed 32-bit integers of the library's native code.

  \<^verbatim>\<open>Image.new("RGB", size, color)\<close> is an image of one colour.

  \<^verbatim>\<open>Image.filter(GaussianBlur(radius))\<close> returns an image of the same size, or raises.
  Whether it raises and the smoothed values, which the library computes with rounding,
  are left open as the parameter \<open>smooth\<close>.

  \<^verbatim>\<open>Image.paste(im, box)\<close> overwrites the part of the box that lies inside the destination
  and ignores the rest; the coordinates must fit signed 32-bit integers and the size of
  the box must be the size of the pasted image.
\<close>

type_synonym box = "int \<times> int \<times> int \<times> int"

definition MAX_IMAGE_PIXELS :: int where
  "MAX_IMAGE_PIXELS = 89478485"

definition in_c_int :: "int \<Rightarrow> bool" where
  "in_c_int v \<longleftrightarrow> - (2 ^ 31) \<le> v \<and> v \<le> 2 ^ 31 - 1"

definition crop :: "bitmap \<Rightarrow> box \<Rightarrow> error + bitmap" where
  "crop im box =
     (case box of (x0, y0, x1, y1) \<Rightarrow>
        if x1 < x0
        then Inl (ValueError (''Coordinate '' @ [CHR 0x27] @ ''right'' @ [CHR 0x27]
                    @ '' is less than '' @ [CHR 0x27] @ ''left'' @ [CHR 0x27]))
        else if y1 < y0
        then Inl (ValueError (''Coordinate '' @ [CHR 0x27] @ ''lower'' @ [CHR 0x27]
                    @ '' is less than '' @ [CHR 0x27] @ ''upper'' @ [CHR 0x27]))
        else if 2 * MAX_IMAGE_PIXELS < max 1 (x1 - x0) * max 1 (y1 - y0)
        then Inl DecompressionBombError
        else if \<not> (in_c_int x0 \<and> in_c_int y0 \<and> in_c_int x1 \<and> in_c_int y1)
        then Inl OverflowError
        else Inr (mk_image (nat (x1 - x0)) (nat (y1 - y0))
               (\<lambda>x y. let sx = x0 + int x; sy = y0 + int y
                      in if 0 \<le> sx \<and> sx < int (width im) \<and> 0 \<le> sy \<and> sy < int (height im)
                         then getpixel im (nat sx) (nat sy) else (0, 0, 0))))"

definition new_image :: "nat \<times> nat \<Rightarrow> pixel \<Rightarrow> bitmap" where
  "new_image sz color = mk_image (fst sz) (snd sz) (\<lambda>x y. color)"

definition image_size :: "bitmap \<Rightarrow> nat \<times> nat" where
  "image_size im = (width im, height im)"

type_synonym smoother = "int \<Rightarrow> bitmap \<Rightarrow> error + (nat \<Rightarrow> nat \<Rightarrow> pixel)"

definition gaussian_blur :: "smoother \<Rightarrow> int \<Rightarrow> bitmap \<Rightarrow> error + bitmap" where
  "gaussian_blur smooth radius im =
     (case smooth radius im of
        Inl e \<Rightarrow> Inl e
      | Inr samples \<Rightarrow> Inr (mk_image (width im) (height im) samples))"

definition paste :: "bitmap \<Rightarrow> bitmap \<Rightarrow> box \<Rightarrow> error + bitmap" where
  "paste dst src box =
     (case box of (x0, y0, x1, y1) \<Rightarrow>
        if \<not> (in_c_int x0 \<and> in_c_int y0 \<and> in_c_int x1 \<and> in_c_int y1)
        then Inl OverflowError
        else if x1 - x0 \<noteq> int (width src) \<or> y1 - y0 \<noteq> int (height src)
        then Inl (ValueError ''images do not match'')
        else Inr (mk_image (width dst) (height dst)
               (\<lambda>x y. if x0 \<le> int x \<and> int x < x1 \<and> y0 \<le> int y \<and> int y < y1
                      then getpixel src (nat (int x - x0)) (nat (int y - y0))
                      else getpixel dst x y)))"

text \<open>
  Images are objects: \<^verbatim>\<open>image.copy()\<close> makes a new one and \<^verbatim>\<open>processed.paste\<close> changes
  \<^verbatim>\<open>processed\<close> in place. The store lists the image objects; an address is a position
  in it, and a new object is added at the end. The cropped piece and the patch are
  temporaries that nothing else refers to, so they are plain values.
\<close>

type_synonym addr = nat
type_synonym heap = "bitmap list"

definition copy_image :: "heap \<Rightarrow> addr \<Rightarrow> addr \<times> heap" where
  "copy_image h a = (length h, h @ [h ! a])"

text \<open>
  The loop of \<^verbatim>\<open>redact_regions\<close> over the regions. An exception leaves the loop with the
  store as it is at that moment.
\<close>

fun redact_loop ::
  "smoother \<Rightarrow> heap \<Rightarrow> addr \<Rightarrow> region list \<Rightarrow> int \<Rightarrow> pixel option \<Rightarrow> error option \<times> heap" where
  "redact_loop smooth h processed [] blur_radius fill_color = (None, h)"
| "redact_loop smooth h processed (region # rest) blur_radius fill_color =
     (let box = (left region, top region, right region, bottom region)
      in case crop (h ! processed) box of
           Inl e \<Rightarrow> (Some e, h)
         | Inr cropped \<Rightarrow>
             (case (case fill_color of
                      None \<Rightarrow> gaussian_blur smooth blur_radius cropped
                    | Some color \<Rightarrow> Inr (new_image (image_size cropped) color)) of
                Inl e \<Rightarrow> (Some e, h)
              | Inr patch \<Rightarrow>
                  (case paste (h ! processed) patch box of
                     Inl e \<Rightarrow> (Some e, h)
                   | Inr pasted \<Rightarrow>
                       redact_loop smooth (h[processed := pasted]) processed rest
                         blur_radius fill_color)))"

definition redact_regions ::
  "smoother \<Rightarrow> heap \<Rightarrow> addr \<Rightarrow> region list \<Rightarrow> int \<Rightarrow> pixel option \<Rightarrow> (error + addr) \<times> heap" where
  "redact_regions smooth h img regions blur_radius fill_color =
     (case copy_image h img of (processed, h1) \<Rightarrow>
        (case redact_loop smooth h1 processed regions blur_radius fill_color of
           (Some e, h2) \<Rightarrow> (Inl e, h2)
         | (None, h2) \<Rightarrow> (Inr processed, h2)))"

text \<open>
  A pixel position is inside a region when the region's rectangle contains it. A region
  is croppable when it has the shape \<^verbatim>\<open>Region.from_tuple\<close> requires and the library accepts
  its box: the coordinates fit signed 32-bit integers and the box has no more than twice
  \<^verbatim>\<open>MAX_IMAGE_PIXELS\<close> pixels.
\<close>

definition inside_region :: "region \<Rightarrow> nat \<Rightarrow> nat \<Rightarrow> bool" where
  "inside_region r x y \<longleftrightarrow>
     left r \<le> int x \<and> int x < right r \<and> top r \<le> int y \<and> int y < bottom r"

definition covered :: "region list \<Rightarrow> nat \<Rightarrow> nat \<Rightarrow> bool" where
  "covered rs x y = list_ex (\<lambda>r. inside_region r x y) rs"

definition croppable :: "region \<Rightarrow> bool" where
  "croppable r \<longleftrightarrow>
     left r < right r \<and> top r < bottom r \<and>
     in_c_int (left r) \<and> in_c_int (top r) \<and> in_c_int (right r) \<and> in_c_int (bottom r) \<and>
     (right r - left r) * (bottom r - top r) \<le> 2 * MAX_IMAGE_PIXELS"

text \<open>
  Sample data: a filter that changes nothing, a region that leaves a two by one image,
  and a region one pixel wide that is one pixel too long for the library's size guard.
\<close>

definition keep_smooth :: smoother where
  "keep_smooth radius im = Inr (\<lambda>x y. getpixel im x y)"

definition tall_region :: region where
  "tall_region = \<lparr>left = 1, top = 0, right = 5, bottom = 3\<rparr>"

definition long_region :: region where
  "long_region = \<lparr>left = 0, top = 0, right = 1, bottom = 178956971\<rparr>"

definition half_black2 :: bitmap where
  "half_black2 = \<lparr>width = 2, height = 1, rows = [[(255, 255, 255), (0, 0, 0)]]\<rparr>"

subsection \<open>Frame encoder (\<^verbatim>\<open>compress_image\<close>, \<^verbatim>\<open>encode_frame\<close>)\<close>

text \<open>\<^verbatim>\<open>str.upper()\<close> and \<^verbatim>\<open>str.lower()\<close> on ASCII text.\<close>

definition upper_char :: "char \<Rightarrow> char" where
  "upper_char c =
     (case map_of (zip ''abcdefghijklmnopqrstuvwxyz'' ''ABCDEFGHIJKLMNOPQRSTUVWXYZ'') c of
        Some u \<Rightarrow> u
      | None \<Rightarrow> c)"

definition lower_char :: "char \<Rightarrow> char" where
  "lower_char c =
     (case map_of (zip ''ABCDEFGHIJKLMNOPQRSTUVWXYZ'' ''abcdefghijklmnopqrstuvwxyz'') c of
        Some l \<Rightarrow> l
      | None \<Rightarrow> c)"

definition upper :: "string \<Rightarrow> string" where
  "upper s = map upper_char s"

definition lower :: "string \<Rightarrow> string" where
  "lower s = map lower_char s"

text \<open>
  The keyword arguments \<^verbatim>\<open>compress_image\<close> passes to \<^verbatim>\<open>image.save\<close>, and the encoder
  itself, which belongs to the imaging library and is a parameter here.
\<close>

record save_kwargs =
  save_format :: string
  save_quality :: int
  save_optimize :: bool
  save_method :: "int option"

type_synonym encoder = "bitmap \<Rightarrow> save_kwargs \<Rightarrow> error + 8 word list"

definition compress_image ::
  "encoder \<Rightarrow> bitmap \<Rightarrow> string \<Rightarrow> int \<Rightarrow> bool \<Rightarrow> error + (8 word list \<times> string)" where
  "compress_image save im format quality optimize =
     (let fmt = upper format;
          fmt = (if fmt \<notin> set [''JPEG'', ''JPG'', ''WEBP''] then ''JPEG'' else fmt);
          mime = (if fmt \<in> set [''JPEG'', ''JPG''] then ''image/jpeg'' else ''image/webp'');
          kwargs = \<lparr>save_format = fmt, save_quality = quality, save_optimize = optimize,
                    save_method = (if fmt = ''WEBP'' then Some 6 else None)\<rparr>
      in case save im kwargs of
           Inl e \<Rightarrow> Inl e
         | Inr data \<Rightarrow> Inr (data, mime))"

text \<open>
  \<^verbatim>\<open>Image.save(fp, format=...)\<close> looks the upper-cased format name up among the names
  encoders are registered under and raises \<^verbatim>\<open>KeyError\<close> for any other name. The library
  registers its JPEG encoder under the name JPEG only; \<^verbatim>\<open>jpg\<close> is a file extension, not a
  registered name. The list gives the registered names that matter here; \<open>codec\<close> stands
  for the encoders.
\<close>

definition registered_formats :: "string list" where
  "registered_formats = [''BMP'', ''GIF'', ''JPEG'', ''PNG'', ''TIFF'', ''WEBP'']"

definition image_save :: "encoder \<Rightarrow> encoder" where
  "image_save codec im kwargs =
     (let name = upper (save_format kwargs)
      in if name \<in> set registered_formats then codec im kwargs else Inl (KeyError name))"

text \<open>\<^verbatim>\<open>resize_image\<close> copies the image and lets the library shrink the copy to fit.\<close>

definition resize_image :: "(bitmap \<Rightarrow> nat \<times> nat \<Rightarrow> bitmap) \<Rightarrow> bitmap \<Rightarrow> bitmap" where
  "resize_image thumb im = thumb im (1280, 720)"

definition encode_frame ::
  "(bitmap \<Rightarrow> nat \<times> nat \<Rightarrow> bitmap) \<Rightarrow> encoder \<Rightarrow> bitmap \<Rightarrow> bool \<Rightarrow> error + (8 word list \<times> string)" where
  "encode_frame thumb sv im prefer_webp =
     (let processed = resize_image thumb im;
          fmt = (if prefer_webp then ''WEBP'' else ''JPEG'')
      in compress_image sv processed fmt 80 True)"

subsection \<open>Fingerprinter and analysis call (\<^verbatim>\<open>compute_digest\<close>, \<^verbatim>\<open>analyze_frame\<close>)\<close>

text \<open>
  The hash function and the analysis service are outside the program and are parameters.
  \<^verbatim>\<open>analyze_frame\<close> returns the text of the answer with surrounding whitespace removed.
\<close>

definition compute_digest :: "(8 word list \<Rightarrow> string) \<Rightarrow> 8 word list \<Rightarrow> string" where
  "compute_digest hash data = hash data"

definition analyze_frame ::
  "(string \<Rightarrow> 8 word list \<Rightarrow> string \<Rightarrow> error + string) \<Rightarrow> string \<Rightarrow> 8 word list \<Rightarrow> string
     \<Rightarrow> error + string" where
  "analyze_frame client prm payload mime_type =
     (case client prm payload mime_type of
        Inl e \<Rightarrow> Inl e
      | Inr output_text \<Rightarrow> Inr (strip output_text))"

subsection \<open>Pipeline orchestrator (\<^verbatim>\<open>should_skip_window\<close>, \<^verbatim>\<open>process_frame\<close>)\<close>

text \<open>The substring test \<^verbatim>\<open>keyword.lower() in lowered\<close>.\<close>

fun is_prefix :: "string \<Rightarrow> string \<Rightarrow> bool" where
  "is_prefix [] ys = True"
| "is_prefix (x # xs) [] = False"
| "is_prefix (x # xs) (y # ys) = (x = y \<and> is_prefix xs ys)"

fun contains :: "string \<Rightarrow> string \<Rightarrow> bool" where
  "contains needle [] = (needle = [])"
| "contains needle (y # ys) = (is_prefix needle (y # ys) \<or> contains needle ys)"

definition should_skip_window :: "string option \<Rightarrow> string list \<Rightarrow> bool" where
  "should_skip_window active_title allowed_keywords =
     (if allowed_keywords = [] then False
      else (case active_title of
              None \<Rightarrow> False
            | Some title \<Rightarrow>
                (let lowered = lower title
                 in \<not> list_ex (\<lambda>keyword. contains (lower keyword) lowered) allowed_keywords)))"

text \<open>
  The variables \<^verbatim>\<open>process_frame\<close> keeps between ticks, and what is outside the program
  during one tick: the title of the active window, the outcome of the screen capture,
  the answer of the analysis service (as a function of the request), and the functions
  of the imaging and hashing libraries. The command-line arguments are a record; the
  parsed regions are passed next to them.
\<close>

record pipeline_state =
  last_payload_digest :: "string option"
  last_image :: "bitmap option"
  last_message :: string

record env =
  active_window_title :: "string option"
  grab :: "error + bitmap"
  respond :: "string \<Rightarrow> 8 word list \<Rightarrow> string \<Rightarrow> error + string"
  blur_samples :: smoother
  thumbnail :: "bitmap \<Rightarrow> nat \<times> nat \<Rightarrow> bitmap"
  save_image :: encoder
  sha1 :: "8 word list \<Rightarrow> string"

record args =
  window_keywords :: "string list"
  prompt :: string
  no_webp :: bool

text \<open>
  What a tick does to the outside, in order: it captures the screen, calls the analysis
  service with a payload and a media type, and shows a text on the overlay.
\<close>

datatype event = Grabbed | Analyzed "8 word list" string | Shown string

text \<open>
  \<^verbatim>\<open>redact_regions(screenshot, regions)\<close> as \<^verbatim>\<open>process_frame\<close> calls it, with the default
  fill colour: the fresh screenshot is the only object in the store, and the image that
  comes back is read from the store.
\<close>

definition redact_image :: "smoother \<Rightarrow> bitmap \<Rightarrow> region list \<Rightarrow> error + bitmap" where
  "redact_image sm screenshot regions =
     (case redact_regions sm [screenshot] 0 regions 25 (Some (0, 0, 0)) of
        (Inl e, h) \<Rightarrow> Inl e
      | (Inr p, h) \<Rightarrow> Inr (h ! p))"

text \<open>
  The text of an exception, as \<^verbatim>\<open>str(exc)\<close> puts it into a message; the texts of the
  library's size guard and of an integer overflow are each given in one fixed form.
\<close>

definition error_text :: "error \<Rightarrow> string" where
  "error_text e =
     (case e of
        ValueError msg \<Rightarrow> msg
      | KeyError k \<Rightarrow> [CHR 0x27] @ k @ [CHR 0x27]
      | ZeroDivisionError \<Rightarrow> ''float division by zero''
      | DecompressionBombError \<Rightarrow> ''Image size exceeds limit''
      | OverflowError \<Rightarrow> ''signed integer is greater than maximum''
      | External msg \<Rightarrow> msg)"

definition waiting_text :: string where
  "waiting_text = ''Waiting for target window'' @ [CHR 0xE2, CHR 0x80, CHR 0xA6]"

text \<open>
  One tick. The result is the exception that leaves \<^verbatim>\<open>process_frame\<close>, if any, the
  variables after the tick, and what the tick did to the outside.
\<close>

definition process_frame ::
  "env \<Rightarrow> args \<Rightarrow> region list \<Rightarrow> pipeline_state \<Rightarrow> error option \<times> pipeline_state \<times> event list" where
  "process_frame env args regions st =
     (if should_skip_window (active_window_title env) (window_keywords args)
      then (None, st, [Shown waiting_text])
      else case grab env of
        Inl exc \<Rightarrow> (None, st, [Grabbed, Shown (''Capture failed: '' @ error_text exc)])
      | Inr captured \<Rightarrow>
         (case (if regions \<noteq> [] then redact_image (blur_samples env) captured regions
                else Inr captured) of
            Inl e \<Rightarrow> (Some e, st, [Grabbed])
          | Inr screenshot \<Rightarrow>
             (case has_significant_change screenshot (last_image st) 8 of
                Inl e \<Rightarrow> (Some e, st, [Grabbed])
              | Inr changed \<Rightarrow>
                 if \<not> changed then (None, st, [Grabbed])
                 else
                  (case encode_frame (thumbnail env) (save_image env) screenshot (\<not> no_webp args) of
                     Inl e \<Rightarrow> (Some e, st, [Grabbed])
                   | Inr (payload, mime) \<Rightarrow>
                      (let digest_hash = compute_digest (sha1 env) payload
                       in if last_payload_digest st = Some digest_hash then (None, st, [Grabbed])
                          else
                           (case analyze_frame (respond env) (prompt args) payload mime of
                              Inl exc \<Rightarrow>
                                (None, st, [Grabbed, Analyzed payload mime,
                                   Shown (''Analysis failed: '' @ error_text exc)])
                            | Inr message \<Rightarrow>
                                if message = [] then (None, st, [Grabbed, Analyzed payload mime])
                                else
                                 (let (st1, shown) =
                                        (if message \<noteq> last_message st
                                         then (st\<lparr>last_message := message\<rparr>, [Shown message])
                                         else (st, []))
                                  in (None,
                                      st1\<lparr>last_payload_digest := Some digest_hash,
                                          last_image := Some screenshot\<rparr>,
                                      [Grabbed, Analyzed payload mime] @ shown))))))))"

text \<open>
  The frame a tick works on, after capture and redaction; and sample surroundings: a
  service that answers with an empty text, one that answers with a suggestion, and a
  screen that cannot be captured.
\<close>

definition redacted_capture :: "env \<Rightarrow> region list \<Rightarrow> error + bitmap" where
  "redacted_capture env regions =
     (case grab env of
        Inl exc \<Rightarrow> Inl exc
      | Inr captured \<Rightarrow>
          if regions \<noteq> [] then redact_image (blur_samples env) captured regions else Inr captured)"

definition initial_state :: pipeline_state where
  "initial_state = \<lparr>last_payload_digest = None, last_image = None, last_message = []\<rparr>"

definition sample_args :: args where
  "sample_args = \<lparr>window_keywords = [], prompt = ''Describe the screen'', no_webp = False\<rparr>"

definition quiet_env :: env where
  "quiet_env =
     \<lparr>active_window_title = None, grab = Inr white2,
      respond = (\<lambda>prm payload mime. Inr []),
      blur_samples = keep_smooth, thumbnail = (\<lambda>im sz. im),
      save_image = (\<lambda>im kwargs. Inr [1, 2, 3]), sha1 = (\<lambda>data. ''digest'')\<rparr>"

definition talking_env :: env where
  "talking_env = quiet_env\<lparr>respond := (\<lambda>prm payload mime. Inr ''Save your work '')\<rparr>"

definition blind_env :: env where
  "blind_env = quiet_env\<lparr>grab := Inl (External ''no display'')\<rparr>"

definition editor_args :: args where
  "editor_args = sample_args\<lparr>window_keywords := [''Editor'']\<rparr>"

section \<open>Properties\<close>

subsection \<open>Images built pixel by pixel\<close>

lemma getpixel_mk_image: "x < w \<Longrightarrow> y < h \<Longrightarrow> getpixel (mk_image w h f) x y = f x y"
  by (simp add: getpixel_def mk_image_def)

lemma width_mk_image: "width (mk_image w h f) = w"
  by (simp add: mk_image_def)

lemma height_mk_image: "height (mk_image w h f) = h"
  by (simp add: mk_image_def)

lemma wf_mk_image: "wf_bitmap (mk_image w h f)"
  by (simp add: wf_bitmap_def mk_image_def list_all_iff)

lemma sum_list_concat_map:
  "sum_list (map g (concat xss)) = (\<Sum>xs\<leftarrow>xss. sum_list (map g xs))"
  by (induction xss) simp_all

lemma sum_pixels_mk_image:
  "sum_list (map g (concat (rows (mk_image w h f)))) =
     (\<Sum>y\<leftarrow>[0..<h]. \<Sum>x\<leftarrow>[0..<w]. g (f x y))"
  by (simp add: mk_image_def sum_list_concat_map comp_def)

subsection \<open>The histogram sum is the sum over the pixels\<close>

lemma enumerate_offset_map:
  "enumerate n (map g [0..<m]) = map (\<lambda>v. (n + v, g v)) [0..<m]"
proof (induction m)
  case 0
  show ?case by simp
next
  case (Suc m)
  show ?case by (simp add: enumerate_append_eq Suc)
qed

lemma weighted_band_sum:
  "sum_list (map (\<lambda>(idx, val). val * (idx mod 256) ^ 2) (enumerate (256 * k) (map g [0..<256])))
     = (\<Sum>v\<leftarrow>[0..<256]. g v * v ^ 2)"
proof -
  have "(\<Sum>v\<leftarrow>[0..<256]. g v * ((256 * k + v) mod 256) ^ 2) = (\<Sum>v\<leftarrow>[0..<256]. g v * v ^ 2)"
    by (rule arg_cong [where f = sum_list], rule map_cong) simp_all
  then show ?thesis
    by (simp only: enumerate_offset_map map_map comp_def split_conv)
qed

text \<open>Counting the samples of each value and weighting the counts visits every sample once.\<close>

lemma count_weighted_sum:
  assumes "\<forall>p \<in> set ps. val p < n"
  shows "(\<Sum>v\<leftarrow>[0..<n]. length (filter (\<lambda>p. val p = v) ps) * f v) = (\<Sum>p\<leftarrow>ps. f (val p))"
  using assms
proof (induction ps)
  case Nil
  show ?case by simp
next
  case (Cons p ps)
  have k: "val p < n" using Cons.prems by simp
  have "(\<Sum>v\<leftarrow>[0..<n]. length (filter (\<lambda>q. val q = v) (p # ps)) * f v)
      = (\<Sum>v\<leftarrow>[0..<n]. (if val p = v then f v else 0) + length (filter (\<lambda>q. val q = v) ps) * f v)"
    by (rule arg_cong [where f = sum_list], rule map_cong) simp_all
  also have "\<dots> = (\<Sum>v\<leftarrow>[0..<n]. (if val p = v then f v else 0))
                 + (\<Sum>v\<leftarrow>[0..<n]. length (filter (\<lambda>q. val q = v) ps) * f v)"
    by (simp add: sum_list_addf)
  also have "(\<Sum>v\<leftarrow>[0..<n]. (if val p = v then f v else 0)) = f (val p)"
    using k by (simp add: interv_sum_list_conv_sum_set_nat)
  finally show ?case using Cons by simp
qed

lemma band_histogram_sum:
  "sum_list (map (\<lambda>(idx, val). val * (idx mod 256) ^ 2)
      (enumerate (256 * k) (band_histogram band im)))
   = (\<Sum>p\<leftarrow>concat (rows im). (unat (band p)) ^ 2)"
proof -
  have "unat w < 256" for w :: "8 word"
    using unsigned_less [of w, where 'a = nat] by simp
  then have "\<forall>p \<in> set (concat (rows im)). unat (band p) < 256"
    by simp
  then show ?thesis
    unfolding band_histogram_def weighted_band_sum
    by (rule count_weighted_sum)
qed

lemma length_band_histogram: "length (band_histogram band im) = 256"
  by (simp add: band_histogram_def)

lemma length_histogram: "length (histogram im) = 768"
  by (simp add: histogram_def bands_def length_band_histogram)

lemma sum_squares_histogram:
  "sum_squares (histogram im) = (\<Sum>band\<leftarrow>bands. \<Sum>p\<leftarrow>concat (rows im). (unat (band p)) ^ 2)"
proof -
  have "sum_squares (histogram im) =
      (\<Sum>k\<leftarrow>[0..<3]. sum_list (map (\<lambda>(idx, val). val * (idx mod 256) ^ 2)
          (enumerate (256 * k) (band_histogram (bands ! k) im))))"
    by (simp add: sum_squares_def histogram_def bands_def enumerate_append_eq
        length_band_histogram upt_rec numeral_3_eq_3)
  also have "\<dots> = (\<Sum>k\<leftarrow>[0..<3]. \<Sum>p\<leftarrow>concat (rows im). (unat ((bands ! k) p)) ^ 2)"
    by (simp only: band_histogram_sum)
  also have "\<dots> = (\<Sum>band\<leftarrow>bands. \<Sum>p\<leftarrow>concat (rows im). (unat (band p)) ^ 2)"
    by (simp add: bands_def upt_rec numeral_3_eq_3)
  finally show ?thesis .
qed

lemma sum_squares_difference:
  "sum_squares (histogram (difference a b)) =
     (\<Sum>y\<leftarrow>[0..<min (height a) (height b)]. \<Sum>x\<leftarrow>[0..<min (width a) (width b)]. \<Sum>band\<leftarrow>bands.
        (unat (absdiff (band (getpixel a x y)) (band (getpixel b x y)))) ^ 2)"
  by (simp add: sum_squares_histogram difference_def sum_pixels_mk_image bands_def
      sum_list_addf split_beta)

lemma absdiff_self: "absdiff a a = 0"
  by (simp add: absdiff_def)

lemma sum_squares_self: "sum_squares (histogram (difference x x)) = 0"
  by (simp add: sum_squares_difference absdiff_self)

subsection \<open>Change detector\<close>

text \<open>
  C4. For two bitmaps of the same size, the root mean square that the change detector
  computes from the 768 histogram buckets of the difference image is the root mean
  square computed directly, pixel by pixel and band by band; both are undefined (a
  division by zero) for an image without pixels.
\<close>

theorem histogram_rms_equals_direct_rms:
  assumes "width a = width b" and "height a = height b"
  shows "rms_difference a b = rms_direct a b"
  using assms
  by (simp add: rms_difference_def rms_direct_def direct_sum_squares_def sum_squares_difference)

theorem histogram_rms_equals_direct_rms_witness:
  "width white2 = width grey2 \<and> height white2 = height grey2 \<and>
   rms_difference white2 grey2 = rms_direct white2 grey2"
  using histogram_rms_equals_direct_rms [of white2 grey2]
  by (simp add: white2_def grey2_def)

text \<open>
  C5. With no previous frame, \<^verbatim>\<open>has_significant_change\<close> returns true for every bitmap
  and every threshold.
\<close>

theorem first_frame_always_significant:
  "has_significant_change x None t = Inr True"
  by (simp add: has_significant_change_def)

text \<open>
  C6, as stated: comparing a bitmap with itself returns false for every positive
  threshold. It fails for a bitmap without pixels, where the mean divides by zero.
\<close>

theorem identical_empty_frame_counterexample:
  "wf_bitmap empty_bitmap \<and>
   has_significant_change empty_bitmap (Some empty_bitmap) 1 = Inl ZeroDivisionError"
  by (simp add: has_significant_change_def rms_difference_def empty_bitmap_def wf_bitmap_def)

text \<open>
  C6, amended: for every bitmap with at least one pixel and every positive threshold,
  comparing the bitmap with itself returns false.
\<close>

theorem identical_frame_not_significant:
  assumes "0 < width x" and "0 < height x" and "0 < t"
  shows "has_significant_change x (Some x) t = Inr False"
  using assms
  by (simp add: has_significant_change_def rms_difference_def sum_squares_self)

theorem identical_frame_not_significant_witness:
  "0 < width grey2 \<and> 0 < height grey2 \<and> (0::real) < 8 \<and>
   has_significant_change grey2 (Some grey2) 8 = Inr False"
  using identical_frame_not_significant [of grey2 8]
  by (simp add: grey2_def)

subsection \<open>Region parsing\<close>








text \<open>
  A token that \<^verbatim>\<open>str.strip()\<close> does not find blank and \<^verbatim>\<open>int\<close> refuses: the unit
  separator before the digit is whitespace for the first and not for the second.
\<close>

lemma separator_before_digit_is_refused:
  "parse_region_config (Some (''0,'' @ [CHR 0x1F] @ ''5,10,10'')) =
     Inl (ValueError (''invalid literal for int() with base 10: ''
            @ [CHR 0x27, CHR 0x5C] @ ''x1f5'' @ [CHR 0x27]))"
  by code_simp

subsection \<open>Redaction\<close>

lemma crop_ok:
  assumes "croppable r"
  shows "crop im (left r, top r, right r, bottom r) =
     Inr (mk_image (nat (right r - left r)) (nat (bottom r - top r))
               (\<lambda>x y. let sx = left r + int x; sy = top r + int y
                      in if 0 \<le> sx \<and> sx < int (width im) \<and> 0 \<le> sy \<and> sy < int (height im)
                         then getpixel im (nat sx) (nat sy) else (0, 0, 0)))"
  using assms by (simp add: crop_def croppable_def)

lemma crop_size:
  assumes "crop im (x0, y0, x1, y1) = Inr c"
  shows "int (width c) = x1 - x0 \<and> int (height c) = y1 - y0"
  using assms by (auto simp: crop_def width_mk_image height_mk_image split: if_splits)

lemma paste_frame:
  assumes "paste dst src (x0, y0, x1, y1) = Inr im"
  shows "width im = width dst" and "height im = height dst"
    and "\<And>x y. x < width dst \<Longrightarrow> y < height dst \<Longrightarrow>
           \<not> (x0 \<le> int x \<and> int x < x1 \<and> y0 \<le> int y \<and> int y < y1) \<Longrightarrow>
           getpixel im x y = getpixel dst x y"
    and "\<And>x y. x < width dst \<Longrightarrow> y < height dst \<Longrightarrow>
           x0 \<le> int x \<and> int x < x1 \<and> y0 \<le> int y \<and> int y < y1 \<Longrightarrow>
           getpixel im x y = getpixel src (nat (int x - x0)) (nat (int y - y0))"
  using assms
  by (auto simp: paste_def width_mk_image height_mk_image getpixel_mk_image split: if_splits)

lemma patch_size:
  assumes "(case fill_color of
              None \<Rightarrow> gaussian_blur smooth radius c
            | Some color \<Rightarrow> Inr (new_image (image_size c) color)) = Inr patch"
  shows "image_size patch = image_size c"
  using assms
  by (auto simp: image_size_def gaussian_blur_def new_image_def width_mk_image height_mk_image
      split: option.splits sum.splits)

lemma redact_loop_frame:
  assumes "p < length h" and "redact_loop smooth h p rs radius fill = (res, h')"
  shows "length h' = length h \<and> (\<forall>i. i \<noteq> p \<longrightarrow> h' ! i = h ! i) \<and>
         width (h' ! p) = width (h ! p) \<and> height (h' ! p) = height (h ! p) \<and>
         (\<forall>x y. x < width (h ! p) \<and> y < height (h ! p) \<and> \<not> covered rs x y \<longrightarrow>
            getpixel (h' ! p) x y = getpixel (h ! p) x y)"
  using assms
proof (induction rs arbitrary: h)
  case Nil
  then show ?case by simp
next
  case (Cons r rs)
  let ?box = "(left r, top r, right r, bottom r)"
  show ?case
  proof (cases "crop (h ! p) ?box")
    case (Inl e)
    with Cons.prems show ?thesis by simp
  next
    case (Inr c)
    let ?made = "case fill of None \<Rightarrow> gaussian_blur smooth radius c
                 | Some color \<Rightarrow> Inr (new_image (image_size c) color)"
    show ?thesis
    proof (cases ?made)
      case (Inl e)
      with Inr Cons.prems show ?thesis by simp
    next
      case made: (Inr patch)
      show ?thesis
      proof (cases "paste (h ! p) patch ?box")
        case (Inl e)
        with Inr made Cons.prems show ?thesis by simp
      next
        case pasted: (Inr im)
        let ?h1 = "h[p := im]"
        have run: "redact_loop smooth ?h1 p rs radius fill = (res, h')"
          using Cons.prems(2) Inr made pasted by simp
        have p1: "p < length ?h1" using Cons.prems(1) by simp
        note ih = Cons.IH [OF p1 run]
        have at_p: "?h1 ! p = im" using Cons.prems(1) by simp
        note fr = paste_frame [OF pasted]
        have "getpixel (h' ! p) x y = getpixel (h ! p) x y"
          if "x < width (h ! p)" "y < height (h ! p)" "\<not> covered (r # rs) x y" for x y
        proof -
          from that(3) have out_r: "\<not> inside_region r x y" and out_rs: "\<not> covered rs x y"
            by (simp_all add: covered_def)
          have "getpixel (h' ! p) x y = getpixel im x y"
            using ih that(1,2) out_rs at_p fr(1,2) by simp
          also have "\<dots> = getpixel (h ! p) x y"
            using fr(3) [of x y] that(1,2) out_r by (simp add: inside_region_def)
          finally show ?thesis .
        qed
        moreover have "\<forall>i. i \<noteq> p \<longrightarrow> h' ! i = h ! i"
          using ih by simp
        ultimately show ?thesis
          using ih at_p fr(1,2) by simp
      qed
    qed
  qed
qed

lemma redact_loop_succeeds:
  assumes "list_all croppable rs"
    and "fill = None \<longrightarrow> (\<forall>im. \<exists>samples. smooth radius im = Inr samples)"
  shows "fst (redact_loop smooth h p rs radius fill) = None"
  using assms(1)
proof (induction rs arbitrary: h)
  case Nil
  show ?case by simp
next
  case (Cons r rs)
  let ?box = "(left r, top r, right r, bottom r)"
  from Cons.prems have cr: "croppable r" and rest: "list_all croppable rs" by simp_all
  obtain c where c: "crop (h ! p) ?box = Inr c"
    using crop_ok [OF cr] by blast
  let ?made = "case fill of None \<Rightarrow> gaussian_blur smooth radius c
               | Some color \<Rightarrow> Inr (new_image (image_size c) color)"
  obtain patch where made: "?made = Inr patch"
  proof (cases fill)
    case None
    with assms(2) obtain samples where "smooth radius c = Inr samples" by blast
    with None that show ?thesis by (simp add: gaussian_blur_def)
  next
    case (Some color)
    with that show ?thesis by simp
  qed
  have "image_size patch = image_size c" using made by (rule patch_size)
  then have "int (width patch) = right r - left r \<and> int (height patch) = bottom r - top r"
    using crop_size [OF c] by (simp add: image_size_def)
  then obtain im where im: "paste (h ! p) patch ?box = Inr im"
    using cr by (simp add: paste_def croppable_def)
  show ?case
    using c made im Cons.IH [OF rest] by simp
qed

lemma redact_loop_fill:
  assumes "p < length h" and "list_all croppable rs"
    and "redact_loop smooth h p rs radius (Some color) = (res, h')"
  shows "\<forall>x y. x < width (h ! p) \<and> y < height (h ! p) \<and> covered rs x y \<longrightarrow>
            getpixel (h' ! p) x y = color"
  using assms
proof (induction rs arbitrary: h)
  case Nil
  show ?case by (simp add: covered_def)
next
  case (Cons r rs)
  let ?box = "(left r, top r, right r, bottom r)"
  from Cons.prems(2) have cr: "croppable r" and rest: "list_all croppable rs" by simp_all
  obtain c where c: "crop (h ! p) ?box = Inr c"
    using crop_ok [OF cr] by blast
  let ?patch = "new_image (image_size c) color"
  have size: "int (width ?patch) = right r - left r \<and> int (height ?patch) = bottom r - top r"
    using crop_size [OF c] by (simp add: new_image_def image_size_def width_mk_image height_mk_image)
  then obtain im where im: "paste (h ! p) ?patch ?box = Inr im"
    using cr by (simp add: paste_def croppable_def)
  let ?h1 = "h[p := im]"
  have run: "redact_loop smooth ?h1 p rs radius (Some color) = (res, h')"
    using Cons.prems(3) c im by simp
  have p1: "p < length ?h1" using Cons.prems(1) by simp
  have at_p: "?h1 ! p = im" using Cons.prems(1) by simp
  note fr = paste_frame [OF im]
  note ih = Cons.IH [OF p1 rest run]
  note keep = redact_loop_frame [OF p1 run]
  show ?case
  proof (intro allI impI)
    fix x y
    assume xy: "x < width (h ! p) \<and> y < height (h ! p) \<and> covered (r # rs) x y"
    show "getpixel (h' ! p) x y = color"
    proof (cases "covered rs x y")
      case True
      then show ?thesis using ih xy at_p fr(1,2) by simp
    next
      case False
      with xy have inside: "inside_region r x y" by (simp add: covered_def)
      have "getpixel (h' ! p) x y = getpixel im x y"
        using keep False xy at_p fr(1,2) by simp
      also have "\<dots> = getpixel ?patch (nat (int x - left r)) (nat (int y - top r))"
        using fr(4) [of x y] xy inside by (simp add: inside_region_def)
      also have "\<dots> = color"
      proof -
        have "nat (int x - left r) < width ?patch" "nat (int y - top r) < height ?patch"
          using size inside by (auto simp: inside_region_def)
        then show ?thesis
          by (simp add: new_image_def width_mk_image height_mk_image getpixel_mk_image)
      qed
      finally show ?thesis .
    qed
  qed
qed

lemma redact_regions_run:
  "redact_regions smooth h img regions radius fill =
     (case redact_loop smooth (h @ [h ! img]) (length h) regions radius fill of
        (Some e, h2) \<Rightarrow> (Inl e, h2)
      | (None, h2) \<Rightarrow> (Inr (length h), h2))"
  by (simp add: redact_regions_def copy_image_def)

lemma redact_regions_cases:
  assumes "redact_regions smooth h img regions radius fill = (res, h')"
  obtains r2 where "redact_loop smooth (h @ [h ! img]) (length h) regions radius fill = (r2, h')"
    and "res = (case r2 of Some e \<Rightarrow> Inl e | None \<Rightarrow> Inr (length h))"
proof (cases "redact_loop smooth (h @ [h ! img]) (length h) regions radius fill")
  case (Pair r2 h2)
  with assms have "h2 = h'" and "res = (case r2 of Some e \<Rightarrow> Inl e | None \<Rightarrow> Inr (length h))"
    unfolding redact_regions_run by (simp_all split: option.splits)
  with Pair that show ?thesis by simp
qed

lemma copy_frame:
  assumes "length h' = length (h @ [a])" and "\<forall>i. i \<noteq> length h \<longrightarrow> h' ! i = (h @ [a]) ! i"
  shows "\<forall>i < length h. h' ! i = h ! i"
  using assms by (simp add: nth_append)

text \<open>
  C9, as stated: for every bitmap and every region set, redaction returns a new bitmap.
  The region below has the shape \<^verbatim>\<open>Region.from_tuple\<close> requires; it is one pixel wide and
  one pixel longer than the library's size guard allows, and redaction raises.
\<close>

theorem long_region_counterexample:
  "from_tuple [0, 0, 1, 178956971] = Inr long_region \<and>
   redact_regions keep_smooth [white2] 0 [long_region] 25 (Some (0, 0, 0))
     = (Inl DecompressionBombError, [white2, white2])"
  by code_simp

text \<open>
  C9, amended: redaction never changes an image object that existed before the call,
  the input among them, also when it raises. When every region is one the library
  accepts (coordinates within the signed 32-bit range, no more than twice
  \<^verbatim>\<open>MAX_IMAGE_PIXELS\<close> pixels) and, in blur mode, the library's filter does not raise,
  redaction returns. What it returns is a new object, of the size of the input, in which
  every pixel outside all the regions equals the pixel of the input.
\<close>

theorem redact_regions_frame:
  assumes "img < length h"
    and "redact_regions smooth h img regions radius fill = (res, h')"
  shows "(\<forall>i < length h. h' ! i = h ! i) \<and>
         (list_all croppable regions \<and>
            (fill = None \<longrightarrow> (\<forall>im. \<exists>samples. smooth radius im = Inr samples)) \<longrightarrow>
            res = Inr (length h)) \<and>
         (\<forall>p. res = Inr p \<longrightarrow>
            p = length h \<and> p < length h' \<and>
            width (h' ! p) = width (h ! img) \<and> height (h' ! p) = height (h ! img) \<and>
            (\<forall>x y. x < width (h ! img) \<and> y < height (h ! img) \<and> \<not> covered regions x y \<longrightarrow>
               getpixel (h' ! p) x y = getpixel (h ! img) x y))"
proof -
  let ?h1 = "h @ [h ! img]"
  from assms(2) obtain r2 where
    run: "redact_loop smooth ?h1 (length h) regions radius fill = (r2, h')" and
    res: "res = (case r2 of Some e \<Rightarrow> Inl e | None \<Rightarrow> Inr (length h))"
    by (rule redact_regions_cases)
  have p1: "length h < length ?h1" by simp
  have at: "?h1 ! length h = h ! img" by simp
  note fr = redact_loop_frame [OF p1 run, unfolded at]
  from fr have len: "length h' = length ?h1"
    and others: "\<forall>i. i \<noteq> length h \<longrightarrow> h' ! i = ?h1 ! i"
    and w: "width (h' ! length h) = width (h ! img)"
    and ht: "height (h' ! length h) = height (h ! img)"
    and px: "\<forall>x y. x < width (h ! img) \<and> y < height (h ! img) \<and> \<not> covered regions x y \<longrightarrow>
               getpixel (h' ! length h) x y = getpixel (h ! img) x y"
    by blast+
  have old: "\<forall>i < length h. h' ! i = h ! i"
    using len others by (rule copy_frame)
  have ok: "list_all croppable regions \<and>
            (fill = None \<longrightarrow> (\<forall>im. \<exists>samples. smooth radius im = Inr samples)) \<longrightarrow>
            res = Inr (length h)"
  proof
    assume accepted: "list_all croppable regions \<and>
            (fill = None \<longrightarrow> (\<forall>im. \<exists>samples. smooth radius im = Inr samples))"
    then have "fst (redact_loop smooth ?h1 (length h) regions radius fill) = None"
      by (intro redact_loop_succeeds) simp_all
    with run res show "res = Inr (length h)" by simp
  qed
  have new: "\<forall>p. res = Inr p \<longrightarrow>
            p = length h \<and> p < length h' \<and>
            width (h' ! p) = width (h ! img) \<and> height (h' ! p) = height (h ! img) \<and>
            (\<forall>x y. x < width (h ! img) \<and> y < height (h ! img) \<and> \<not> covered regions x y \<longrightarrow>
               getpixel (h' ! p) x y = getpixel (h ! img) x y)"
  proof (intro allI impI)
    fix p assume "res = Inr p"
    with res have p: "p = length h" by (cases r2) simp_all
    have "p < length h'" using p len by simp
    with p w ht px show "p = length h \<and> p < length h' \<and>
            width (h' ! p) = width (h ! img) \<and> height (h' ! p) = height (h ! img) \<and>
            (\<forall>x y. x < width (h ! img) \<and> y < height (h ! img) \<and> \<not> covered regions x y \<longrightarrow>
               getpixel (h' ! p) x y = getpixel (h ! img) x y)"
      by blast
  qed
  from old ok new show ?thesis by blast
qed

theorem redact_regions_frame_witness:
  "(0::nat) < length [white2] \<and>
   redact_regions keep_smooth [white2] 0 [tall_region] 25 (Some (0, 0, 0))
     = (Inr 1, [white2, half_black2]) \<and>
   list_all croppable [tall_region] \<and> \<not> covered [tall_region] 0 0 \<and>
   [white2, half_black2] ! 0 = white2 \<and>
   getpixel ([white2, half_black2] ! 1) 0 0 = getpixel ([white2] ! 0) 0 0"
proof -
  have ex: "redact_regions keep_smooth [white2] 0 [tall_region] 25 (Some (0, 0, 0))
     = (Inr 1, [white2, half_black2])"
    by code_simp
  have pre: "(0::nat) < length [white2]" by simp
  have cr: "list_all croppable [tall_region]" by code_simp
  have nc: "\<not> covered [tall_region] 0 0" by code_simp
  have sz: "(0::nat) < width ([white2] ! 0) \<and> (0::nat) < height ([white2] ! 0)"
    by (simp add: white2_def)
  from redact_regions_frame [OF pre ex] nc sz
  have "[white2, half_black2] ! 0 = white2 \<and>
        getpixel ([white2, half_black2] ! 1) 0 0 = getpixel ([white2] ! 0) 0 0"
    by simp
  with ex pre cr nc show ?thesis by blast
qed

text \<open>
  C2, as stated: a region with coordinates outside the bitmap makes redaction fail with
  an out-of-bounds error. The region below reaches past the right and the lower edge of
  a two by one bitmap, and redaction returns normally, the region cut to the bitmap.
\<close>

theorem out_of_bounds_region_counterexample:
  "wf_bitmap white2 \<and> int (width white2) < right tall_region \<and>
   int (height white2) < bottom tall_region \<and>
   redact_regions keep_smooth [white2] 0 [tall_region] 25 (Some (0, 0, 0))
     = (Inr 1, [white2, half_black2])"
  by code_simp

text \<open>
  C2, amended: for regions the library accepts (coordinates within the signed 32-bit
  range, no more than twice \<^verbatim>\<open>MAX_IMAGE_PIXELS\<close> pixels), inside the bitmap or not,
  redaction with a fill colour does not fail. It returns a new bitmap of the same size
  in which the pixels inside the bitmap that some region contains have the fill colour
  and every other pixel is the input's: a region that reaches beyond the bitmap is cut
  to it.
\<close>

theorem redact_regions_clips_to_bitmap:
  assumes "img < length h" and "list_all croppable regions"
  shows "\<exists>h'. redact_regions smooth h img regions radius (Some color) = (Inr (length h), h') \<and>
           width (h' ! length h) = width (h ! img) \<and>
           height (h' ! length h) = height (h ! img) \<and>
           (\<forall>x y. x < width (h ! img) \<and> y < height (h ! img) \<longrightarrow>
              getpixel (h' ! length h) x y =
                (if covered regions x y then color else getpixel (h ! img) x y))"
proof -
  let ?h1 = "h @ [h ! img]"
  obtain r2 h' where run: "redact_loop smooth ?h1 (length h) regions radius (Some color) = (r2, h')"
    by (cases "redact_loop smooth ?h1 (length h) regions radius (Some color)") blast
  have "fst (redact_loop smooth ?h1 (length h) regions radius (Some color)) = None"
    using assms(2) by (intro redact_loop_succeeds) simp_all
  with run have r2: "r2 = None" by simp
  have out: "redact_regions smooth h img regions radius (Some color) = (Inr (length h), h')"
    unfolding redact_regions_run run r2 by simp
  have p1: "length h < length ?h1" by simp
  have at: "?h1 ! length h = h ! img" by simp
  note fr = redact_loop_frame [OF p1 run, unfolded at]
  note fill = redact_loop_fill [OF p1 assms(2) run, unfolded at]
  from fr have w: "width (h' ! length h) = width (h ! img)"
    and ht: "height (h' ! length h) = height (h ! img)"
    and px: "\<forall>x y. x < width (h ! img) \<and> y < height (h ! img) \<and> \<not> covered regions x y \<longrightarrow>
               getpixel (h' ! length h) x y = getpixel (h ! img) x y"
    by blast+
  have "\<forall>x y. x < width (h ! img) \<and> y < height (h ! img) \<longrightarrow>
          getpixel (h' ! length h) x y =
            (if covered regions x y then color else getpixel (h ! img) x y)"
  proof (intro allI impI)
    fix x y assume xy: "x < width (h ! img) \<and> y < height (h ! img)"
    show "getpixel (h' ! length h) x y =
            (if covered regions x y then color else getpixel (h ! img) x y)"
    proof (cases "covered regions x y")
      case True
      with fill xy show ?thesis by simp
    next
      case False
      with px xy show ?thesis by simp
    qed
  qed
  with out w ht show ?thesis by blast
qed

theorem redact_regions_clips_to_bitmap_witness:
  "(0::nat) < length [white2] \<and> list_all croppable [tall_region] \<and>
   (\<exists>h'. redact_regions keep_smooth [white2] 0 [tall_region] 25 (Some (7, 8, 9)) = (Inr 1, h') \<and>
      getpixel (h' ! 1) 1 0 = (7, 8, 9) \<and> getpixel (h' ! 1) 0 0 = (255, 255, 255))"
proof -
  have pre: "(0::nat) < length [white2]" by simp
  have cr: "list_all croppable [tall_region]" by code_simp
  have c1: "covered [tall_region] 1 0" by code_simp
  have c0: "\<not> covered [tall_region] 0 0" by code_simp
  have w: "width ([white2] ! 0) = 2" "height ([white2] ! 0) = 1"
    "getpixel ([white2] ! 0) 0 0 = (255, 255, 255)"
    by (simp_all add: white2_def getpixel_def)
  from redact_regions_clips_to_bitmap [OF pre cr, of keep_smooth 25 "(7, 8, 9)"]
  obtain h' where
    out: "redact_regions keep_smooth [white2] 0 [tall_region] 25 (Some (7, 8, 9)) = (Inr 1, h')"
    and px: "\<forall>x y. x < width ([white2] ! 0) \<and> y < height ([white2] ! 0) \<longrightarrow>
              getpixel (h' ! 1) x y =
                (if covered [tall_region] x y then (7, 8, 9) else getpixel ([white2] ! 0) x y)"
    by auto
  from px [rule_format, of 1 0] c1 w have "getpixel (h' ! 1) 1 0 = (7, 8, 9)" by simp
  moreover from px [rule_format, of 0 0] c0 w have "getpixel (h' ! 1) 0 0 = (255, 255, 255)" by simp
  ultimately show ?thesis using pre cr out by blast
qed

subsection \<open>Frame encoder\<close>

lemma compress_image_keeps_jpg:
  "compress_image sv im ''jpg'' q opt =
     (case sv im \<lparr>save_format = ''JPG'', save_quality = q, save_optimize = opt,
                  save_method = None\<rparr> of
        Inl e \<Rightarrow> Inl e
      | Inr data \<Rightarrow> Inr (data, ''image/jpeg''))"
  by (simp add: compress_image_def Let_def upper_def upper_char_def)

lemma compress_image_falls_back:
  assumes "upper format \<notin> set [''JPEG'', ''JPG'', ''WEBP'']"
  shows "compress_image sv im format q opt =
     (case sv im \<lparr>save_format = ''JPEG'', save_quality = q, save_optimize = opt,
                  save_method = None\<rparr> of
        Inl e \<Rightarrow> Inl e
      | Inr data \<Rightarrow> Inr (data, ''image/jpeg''))"
  using assms by (simp add: compress_image_def Let_def)

text \<open>
  C7. The claim is that compression succeeds for every format value. For the format
  value \<^verbatim>\<open>jpg\<close> the code keeps the name JPG, which it lists as supported, and hands it to
  the library unchanged; the library knows no encoder of that name and raises.
\<close>

theorem jpg_alias_is_not_encoded:
  "compress_image (image_save codec) im ''jpg'' 85 True = Inl (KeyError ''JPG'')"
  by (simp add: compress_image_def image_save_def registered_formats_def upper_def upper_char_def)

subsection \<open>Pipeline\<close>

lemmas tick_defs =
  process_frame_def should_skip_window_def has_significant_change_def encode_frame_def
  resize_image_def compress_image_def compute_digest_def analyze_frame_def strip_def
  is_space_def upper_def upper_char_def

text \<open>
  C1, as stated: whenever the analysis call succeeds, the new frame and digest are
  stored, also when the message is empty. Here the service answers with an empty text:
  the call succeeds and nothing is stored.
\<close>

theorem empty_message_counterexample:
  "analyze_frame (respond quiet_env) (prompt sample_args) [1, 2, 3] ''image/webp'' = Inr [] \<and>
   process_frame quiet_env sample_args [] initial_state =
     (None, initial_state, [Grabbed, Analyzed [1, 2, 3] ''image/webp'']) \<and>
   last_image initial_state = None \<and> last_payload_digest initial_state = None"
  by (simp add: process_frame_def quiet_env_def sample_args_def initial_state_def
      should_skip_window_def has_significant_change_def encode_frame_def resize_image_def
      compress_image_def compute_digest_def analyze_frame_def strip_def upper_def upper_char_def)

text \<open>
  C1, amended: in a tick whose analysis call succeeds with a message that is not empty,
  the new frame and the new digest are stored, whether or not the message differs from
  the stored one, and the stored message is then the new one. When the message is empty
  the tick ends with the state unchanged.
\<close>

theorem analysis_success_stores_frame:
  assumes "process_frame env args regions st = (raised, st', evs)"
    and "Analyzed payload mime \<in> set evs"
    and "analyze_frame (respond env) (prompt args) payload mime = Inr message"
  shows "(message \<noteq> [] \<longrightarrow>
            last_payload_digest st' = Some (compute_digest (sha1 env) payload) \<and>
            (\<exists>screenshot. redacted_capture env regions = Inr screenshot \<and>
                          last_image st' = Some screenshot) \<and>
            last_message st' = message) \<and>
         (message = [] \<longrightarrow> st' = st)"
  using assms
  by (auto simp: process_frame_def redacted_capture_def Let_def
      split: if_splits sum.splits prod.splits)

theorem analysis_success_stores_frame_witness:
  "process_frame talking_env sample_args [] initial_state =
     (None,
      \<lparr>last_payload_digest = Some ''digest'', last_image = Some white2,
         last_message = ''Save your work''\<rparr>,
      [Grabbed, Analyzed [1, 2, 3] ''image/webp'', Shown ''Save your work'']) \<and>
   analyze_frame (respond talking_env) (prompt sample_args) [1, 2, 3] ''image/webp''
     = Inr ''Save your work'' \<and>
   redacted_capture talking_env [] = Inr white2"
proof -
  let ?st' = "\<lparr>last_payload_digest = Some ''digest'', last_image = Some white2,
                last_message = ''Save your work''\<rparr>"
  let ?evs = "[Grabbed, Analyzed [1, 2, 3] ''image/webp'', Shown ''Save your work'']"
  have run: "process_frame talking_env sample_args [] initial_state = (None, ?st', ?evs)"
    by (simp add: tick_defs talking_env_def quiet_env_def sample_args_def initial_state_def)
  have ev: "Analyzed [1, 2, 3] ''image/webp'' \<in> set ?evs" by simp
  have msg: "analyze_frame (respond talking_env) (prompt sample_args) [1, 2, 3] ''image/webp''
     = Inr ''Save your work''"
    by (simp add: analyze_frame_def strip_def is_space_def talking_env_def quiet_env_def)
  from analysis_success_stores_frame [OF run ev msg]
  have "\<exists>screenshot. redacted_capture talking_env [] = Inr screenshot \<and>
          last_image ?st' = Some screenshot"
    by simp
  then have "redacted_capture talking_env [] = Inr white2" by auto
  with run msg show ?thesis by simp
qed

text \<open>
  C8. When the capture fails, the tick shows the failure and ends: no exception leaves
  it and the state is the one it started with. (A tick the window filter skips does not
  capture at all and keeps the state too.)
\<close>

theorem capture_failure_keeps_state:
  assumes "grab env = Inl exc"
  shows "process_frame env args regions st =
     (None, st,
      if should_skip_window (active_window_title env) (window_keywords args)
      then [Shown waiting_text]
      else [Grabbed, Shown (''Capture failed: '' @ error_text exc)])"
  using assms by (simp add: process_frame_def)

theorem capture_failure_keeps_state_witness:
  "grab blind_env = Inl (External ''no display'') \<and>
   process_frame blind_env sample_args [] initial_state =
     (None, initial_state, [Grabbed, Shown ''Capture failed: no display''])"
proof -
  have failed: "grab blind_env = Inl (External ''no display'')"
    by (simp add: blind_env_def quiet_env_def)
  from capture_failure_keeps_state [OF failed, of sample_args "[]" initial_state]
  show ?thesis
    using failed by (simp add: should_skip_window_def sample_args_def error_text_def)
qed

text \<open>
  C10. With a keyword list that is not empty and no window title, the window filter does
  not skip: the tick goes on to capture, and it is the same tick as with any title the
  filter lets through.
\<close>

theorem missing_title_does_not_skip:
  assumes "window_keywords args \<noteq> []" and "active_window_title env = None"
  shows "\<not> should_skip_window (active_window_title env) (window_keywords args) \<and>
         hd (snd (snd (process_frame env args regions st))) = Grabbed \<and>
         (\<forall>title. \<not> should_skip_window (Some title) (window_keywords args) \<longrightarrow>
            process_frame (env\<lparr>active_window_title := Some title\<rparr>) args regions st =
            process_frame env args regions st)"
  using assms
  by (auto simp: process_frame_def should_skip_window_def Let_def
      split: if_splits sum.splits prod.splits)

theorem missing_title_does_not_skip_witness:
  "window_keywords editor_args \<noteq> [] \<and> active_window_title quiet_env = None \<and>
   \<not> should_skip_window (active_window_title quiet_env) (window_keywords editor_args) \<and>
   hd (snd (snd (process_frame quiet_env editor_args [] initial_state))) = Grabbed \<and>
   \<not> should_skip_window (Some ''Text EDITOR - notes'') (window_keywords editor_args) \<and>
   process_frame (quiet_env\<lparr>active_window_title := Some ''Text EDITOR - notes''\<rparr>)
     editor_args [] initial_state =
   process_frame quiet_env editor_args [] initial_state"
proof -
  have kw: "window_keywords editor_args \<noteq> []"
    by (simp add: editor_args_def sample_args_def)
  have title: "active_window_title quiet_env = None"
    by (simp add: quiet_env_def)
  have matched: "\<not> should_skip_window (Some ''Text EDITOR - notes'') (window_keywords editor_args)"
    by (simp add: should_skip_window_def editor_args_def sample_args_def lower_def lower_char_def)
  from missing_title_does_not_skip [OF kw title, of "[]" initial_state]
  show ?thesis using kw title matched by blast
qed

end
